theory Spec2Isabelle
  imports Complex_Main
begin

section \<open>Health score\<close>

text \<open>
  The dictionary returned by \<open>calculate_health_score\<close> has the three keys
  \<open>value\<close>, \<open>category\<close> and \<open>description\<close>; it is a record here.
  Python's integers are unbounded and \<open>//\<close> is floor division, as \<open>div\<close> on \<open>int\<close> is.
\<close>

record health_score =
  hs_value :: int
  category :: string
  description :: string

definition calculate_health_score :: "int \<Rightarrow> bool \<Rightarrow> int \<Rightarrow> health_score" where
  "calculate_health_score overall_score is_reputable optimization_indicators =
     (let score1 =
            (if is_reputable
             then (let bonus = min 10 (max 5 (overall_score div 10))
                   in min 100 (overall_score + bonus))
             else overall_score);
          score2 =
            (if optimization_indicators > 0
             then (let bonus = min 5 optimization_indicators
                   in min 100 (score1 + bonus))
             else score1)
      in if score2 \<ge> 90 then
           \<lparr>hs_value = score2, category = ''Excellent'',
            description = ''Your website is optimized for conversions with only minor improvements needed.''\<rparr>
         else if score2 \<ge> 80 then
           \<lparr>hs_value = score2, category = ''Very Good'',
            description = ''Your website performs well but has some opportunities for improvement.''\<rparr>
         else if score2 \<ge> 70 then
           \<lparr>hs_value = score2, category = ''Good'',
            description = ''Your website has a solid foundation but several areas need attention.''\<rparr>
         else if score2 \<ge> 60 then
           \<lparr>hs_value = score2, category = ''Needs Improvement'',
            description = ''Your website has some issues that may be impacting conversions.''\<rparr>
         else if score2 \<ge> 50 then
           \<lparr>hs_value = score2, category = ''Poor'',
            description = ''Your website has significant conversion issues that need attention.''\<rparr>
         else
           \<lparr>hs_value = score2, category = ''Critical'',
            description = ''Your website has critical issues that are severely limiting conversions.''\<rparr>)"


section \<open>Strings\<close>

text \<open>
  A Python \<open>str\<close> is modelled as a \<open>string\<close>, read as a sequence of the code points
  0 to 255 (Latin-1). The predicates below follow Python on that alphabet:
  \<open>starts_with\<close> is \<open>str.startswith\<close>, \<open>contains s sub\<close> is \<open>sub in s\<close>,
  \<open>isspace\<close> is the white space of \<open>str.strip\<close> and of the regular expression class
  \<open>\s\<close>, \<open>lower\<close> is \<open>str.lower\<close>, \<open>isdigit\<close> is \<open>str.isdigit\<close> (true of the
  superscripts 1, 2, 3 as well, which \<open>int\<close> and \<open>float\<close> reject).
\<close>

fun starts_with :: "string \<Rightarrow> string \<Rightarrow> bool" where
  "starts_with s [] = True"
| "starts_with [] (p # ps) = False"
| "starts_with (c # cs) (p # ps) = (c = p \<and> starts_with cs ps)"

fun contains :: "string \<Rightarrow> string \<Rightarrow> bool" where
  "contains [] sub = (sub = [])"
| "contains (c # cs) sub = (starts_with (c # cs) sub \<or> contains cs sub)"



definition lower_char :: "char \<Rightarrow> char" where
  "lower_char c =
     (let n = of_char c :: nat
      in if (65 \<le> n \<and> n \<le> 90) \<or> (192 \<le> n \<and> n \<le> 222 \<and> n \<noteq> 215)
         then char_of (n + 32) else c)"

definition lower :: "string \<Rightarrow> string" where
  "lower s = map lower_char s"

definition is_decimal :: "char \<Rightarrow> bool" where
  "is_decimal c = (48 \<le> (of_char c :: nat) \<and> (of_char c :: nat) \<le> 57)"



definition digits_value :: "string \<Rightarrow> int" where
  "digits_value s = foldl (\<lambda>a c. 10 * a + (of_char c - 48)) 0 s"


text \<open>
  \<open>float(s)\<close>: white space is stripped, then an optional sign, then \<open>inf\<close>, \<open>infinity\<close>
  or \<open>nan\<close> in any case, or a decimal number: digits with single underscores between
  them, an optional fraction, an optional exponent. Anything else raises ValueError
  (\<open>None\<close>). The number read is kept exactly, as a rational.
\<close>

datatype pyfloat = Finite rat | PosInf | NegInf | NaN






section \<open>Large image dimensions\<close>








section \<open>Rate limiter\<close>

text \<open>
  The limiter reads the wall clock with \<open>time.time()\<close> and blocks with \<open>time.sleep\<close>.
  The clock is a field of the world the code runs in; its readings are taken as real
  numbers. \<open>sleep seconds late w\<close> is the world after \<open>time.sleep(seconds)\<close>: the clock
  has advanced by \<open>seconds\<close> and by the time \<open>late\<close> the thread was resumed late.
  One thread at a time uses the limiter.
\<close>

record world =
  clock :: real

text \<open>
  An exception is its text \<open>str(e)\<close> and its \<open>retry_delay\<close> attribute: absent
  (\<open>NoAttr\<close>), with a field \<open>seconds\<close>, or present without a readable field.
\<close>

datatype attr = NoAttr | Seconds int | BadAttr

record pyexn =
  message :: string
  retry_delay_attr :: attr

definition IndexError :: pyexn where
  "IndexError = \<lparr>message = ''list index out of range'', retry_delay_attr = NoAttr\<rparr>"

text \<open>
  The class \<open>GeminiRateLimiter\<close>; \<open>init\<close> is its constructor, with the defaults
  \<open>max_requests = 60\<close> and \<open>per_minute = 1\<close> written at the call.
\<close>

record GeminiRateLimiter =
  max_requests :: int
  per_minute :: int
  request_timestamps :: "real list"
  last_retry_time :: real
  retry_delay :: int

definition init :: "int \<Rightarrow> int \<Rightarrow> GeminiRateLimiter" where
  "init max_requests' per_minute' =
     \<lparr>max_requests = max_requests', per_minute = per_minute', request_timestamps = [],
      last_retry_time = 0, retry_delay = 0\<rparr>"

text \<open>
  What a call does, in the order it does it: \<open>Slept d\<close> a call of \<open>time.sleep(d)\<close>,
  \<open>Checked c n\<close> the comparison of the \<open>n\<close> timestamps kept with \<open>max_requests\<close>, made
  when the clock shows \<open>c\<close>, \<open>Recorded t\<close> the timestamp \<open>t\<close> appended,
  \<open>Signalled c\<close> a call of \<open>handle_rate_limit_error\<close> at clock \<open>c\<close>, and
  \<open>Invoked\<close> a call of the wrapped function.
\<close>

datatype event = Slept real | Checked real nat | Recorded real | Signalled real | Invoked

definition sleep :: "real \<Rightarrow> real \<Rightarrow> 'z world_scheme \<Rightarrow> 'z world_scheme" where
  "sleep seconds late w = w\<lparr>clock := clock w + seconds + late\<rparr>"

text \<open>
  \<open>wait_if_needed\<close> returns the exception raised, if any (\<open>request_timestamps[0]\<close> on
  an empty list raises IndexError), the limiter and the world as it leaves them, and its
  events. \<open>late\<close> holds the lateness of its two sleeps.
\<close>

definition wait_if_needed ::
  "real \<times> real \<Rightarrow> GeminiRateLimiter \<Rightarrow> 'z world_scheme
     \<Rightarrow> pyexn option \<times> GeminiRateLimiter \<times> 'z world_scheme \<times> event list" where
  "wait_if_needed late self w =
     (let current_time = clock w;
          deadline = last_retry_time self + of_int (retry_delay self);
          (w1, tr1) =
            (if current_time < deadline
             then (sleep (deadline - current_time) (fst late) w, [Slept (deadline - current_time)])
             else (w, []));
          window = of_int (per_minute self * 60);
          self1 = self\<lparr>request_timestamps :=
                    filter (\<lambda>ts. current_time - ts < window) (request_timestamps self)\<rparr>;
          tr2 = tr1 @ [Checked (clock w1) (length (request_timestamps self1))]
      in if int (length (request_timestamps self1)) \<ge> max_requests self1 then
           (case request_timestamps self1 of
              [] \<Rightarrow> (Some IndexError, self1, w1, tr2)
            | oldest_request # _ \<Rightarrow>
                let wait_time = window - (current_time - oldest_request);
                    w2 = sleep wait_time (snd late) w1
                in (None,
                    self1\<lparr>request_timestamps := request_timestamps self1 @ [current_time]\<rparr>,
                    w2, tr2 @ [Slept wait_time, Recorded current_time]))
         else (None,
               self1\<lparr>request_timestamps := request_timestamps self1 @ [current_time]\<rparr>,
               w1, tr2 @ [Recorded current_time]))"

definition handle_rate_limit_error ::
  "GeminiRateLimiter \<Rightarrow> pyexn \<Rightarrow> 'z world_scheme \<Rightarrow> GeminiRateLimiter" where
  "handle_rate_limit_error self error w =
     (case retry_delay_attr error of
        Seconds n \<Rightarrow> self\<lparr>retry_delay := n, last_retry_time := clock w\<rparr>
      | NoAttr \<Rightarrow> self\<lparr>retry_delay := 30, last_retry_time := clock w\<rparr>
      | BadAttr \<Rightarrow> self\<lparr>retry_delay := 30, last_retry_time := clock w\<rparr>)"

text \<open>The timestamps of the limiter that lie in the trailing window at the time \<open>now\<close>.\<close>

definition in_window :: "GeminiRateLimiter \<Rightarrow> real \<Rightarrow> real list" where
  "in_window self now =
     filter (\<lambda>ts. now - ts < of_int (per_minute self * 60)) (request_timestamps self)"

text \<open>
  The states of a limiter created with quota \<open>q\<close> and window \<open>m\<close> minutes: time passes,
  \<open>wait_if_needed\<close> is called, \<open>handle_rate_limit_error\<close> is called, in any order.
\<close>

inductive reachable :: "int \<Rightarrow> int \<Rightarrow> GeminiRateLimiter \<times> 'z world_scheme \<Rightarrow> bool"
  for q :: int and m :: int where
  start: "reachable q m (init q m, w)"
| elapse: "reachable q m (self, w) \<Longrightarrow> 0 \<le> d \<Longrightarrow> reachable q m (self, w\<lparr>clock := clock w + d\<rparr>)"
| acquire: "reachable q m (self, w) \<Longrightarrow> 0 \<le> fst late \<Longrightarrow> 0 \<le> snd late \<Longrightarrow>
            wait_if_needed late self w = (x, self', w', tr) \<Longrightarrow> reachable q m (self', w')"
| signal: "reachable q m (self, w) \<Longrightarrow> reachable q m (handle_rate_limit_error self e w, w)"

text \<open>
  The decorator \<open>rate_limited_gemini_call\<close> creates one limiter, \<open>init 60 1\<close>, and
  returns \<open>wrapper\<close>. The wrapped function \<open>func\<close> acts on the world and returns a value
  or raises. \<open>except_clause\<close> is the body of the wrapper's \<open>except Exception as e\<close>, which
  also catches an exception of the first \<open>wait_if_needed\<close>; \<open>late\<close> holds the lateness of
  the sleeps of the two calls of \<open>wait_if_needed\<close>.
\<close>

definition is_rate_limit_error :: "pyexn \<Rightarrow> bool" where
  "is_rate_limit_error e = (contains (lower (message e)) ''quota'' \<or> contains (message e) ''429'')"

definition except_clause ::
  "('z world_scheme \<Rightarrow> (pyexn + 'a) \<times> 'z world_scheme) \<Rightarrow> real \<times> real \<Rightarrow> pyexn
     \<Rightarrow> GeminiRateLimiter \<Rightarrow> 'z world_scheme \<Rightarrow> event list
     \<Rightarrow> (pyexn + 'a) \<times> GeminiRateLimiter \<times> 'z world_scheme \<times> event list" where
  "except_clause func late e rate_limiter w tr =
     (if is_rate_limit_error e then
        (let rate_limiter1 = handle_rate_limit_error rate_limiter e w
         in case wait_if_needed late rate_limiter1 w of
              (Some e', rate_limiter2, w2, tr2) \<Rightarrow>
                (Inl e', rate_limiter2, w2, tr @ [Signalled (clock w)] @ tr2)
            | (None, rate_limiter2, w2, tr2) \<Rightarrow>
                (case func w2 of
                   (r, w3) \<Rightarrow> (r, rate_limiter2, w3, tr @ [Signalled (clock w)] @ tr2 @ [Invoked])))
      else (Inl e, rate_limiter, w, tr))"

definition wrapper ::
  "('z world_scheme \<Rightarrow> (pyexn + 'a) \<times> 'z world_scheme) \<Rightarrow> (real \<times> real) \<times> (real \<times> real)
     \<Rightarrow> GeminiRateLimiter \<Rightarrow> 'z world_scheme
     \<Rightarrow> (pyexn + 'a) \<times> GeminiRateLimiter \<times> 'z world_scheme \<times> event list" where
  "wrapper func late rate_limiter w =
     (case wait_if_needed (fst late) rate_limiter w of
        (Some e, rate_limiter1, w1, tr1) \<Rightarrow> except_clause func (snd late) e rate_limiter1 w1 tr1
      | (None, rate_limiter1, w1, tr1) \<Rightarrow>
          (case func w1 of
             (Inr v, w2) \<Rightarrow> (Inr v, rate_limiter1, w2, tr1 @ [Invoked])
           | (Inl e, w2) \<Rightarrow> except_clause func (snd late) e rate_limiter1 w2 (tr1 @ [Invoked])))"

text \<open>The delay that \<open>handle_rate_limit_error\<close> stores for an exception, and the number
  of calls of the wrapped function in a trace.\<close>

definition retry_seconds :: "pyexn \<Rightarrow> int" where
  "retry_seconds e = (case retry_delay_attr e of Seconds n \<Rightarrow> n | NoAttr \<Rightarrow> 30 | BadAttr \<Rightarrow> 30)"

definition invocations :: "event list \<Rightarrow> nat" where
  "invocations tr = length (filter (\<lambda>ev. ev = Invoked) tr)"


section \<open>Content cache\<close>

text \<open>
  The decorator \<open>cached_function\<close> keys its dictionary by \<open>str(args) + str(kwargs)\<close>.
  \<open>extract_website_content\<close> is always called with the URL as its one positional
  argument, so the key is the text of the tuple \<open>(url,)\<close>, which holds \<open>repr(url)\<close>,
  followed by the text \<open>{}\<close> of the empty dictionary. \<open>py_repr\<close> is \<open>repr\<close> on strings:
  the quote is the double quote when the string has a single quote and no double quote,
  the single quote otherwise; the quote and the backslash are escaped with a backslash,
  tab, newline and return are written \<open>\t\<close>, \<open>\n\<close>, \<open>\r\<close>, and any other character that
  is not printable is written \<open>\xhh\<close>.
\<close>

definition isprintable :: "char \<Rightarrow> bool" where
  "isprintable c =
     (let n = of_char c :: nat in (32 \<le> n \<and> n < 127) \<or> (161 \<le> n \<and> n \<noteq> 173))"

definition hexdigit :: "nat \<Rightarrow> char" where
  "hexdigit n = (if n < 10 then char_of (48 + n) else char_of (87 + n))"

definition escape :: "char \<Rightarrow> char \<Rightarrow> string" where
  "escape quote c =
     (if c = quote \<or> c = CHR 0x5C then [CHR 0x5C, c]
      else if c = CHR 0x09 then [CHR 0x5C, CHR ''t'']
      else if c = CHR 0x0A then [CHR 0x5C, CHR ''n'']
      else if c = CHR 0x0D then [CHR 0x5C, CHR ''r'']
      else if \<not> isprintable c then
        [CHR 0x5C, CHR ''x'', hexdigit (of_char c div 16), hexdigit (of_char c mod 16)]
      else [c])"

definition py_repr :: "string \<Rightarrow> string" where
  "py_repr s =
     (let quote = (if CHR 0x27 \<in> set s \<and> CHR 0x22 \<notin> set s then CHR 0x22 else CHR 0x27)
      in quote # concat (map (escape quote) s) @ [quote])"

definition args_key :: "string \<Rightarrow> string" where
  "args_key url = (''('' @ py_repr url @ '',)'') @ ''{}''"



text \<open>
  The dictionary \<open>website_data\<close> built by the extraction, key by key (the key
  \<open>keywords\<close> is the field \<open>meta_keywords\<close>), and the two kinds of dictionary that
  \<open>extract_website_content\<close> returns with its success flag: the signals, or
  \<open>{'error': error_message, 'url': url}\<close>.
\<close>

record website_data =
  url :: string
  title :: string
  meta_description :: string
  meta_keywords :: string
  text_content :: string
  ctas_count :: nat
  forms_count :: nat
  nav_elements_count :: nat
  testimonials_count :: nat
  footer_elements_count :: nat
  scripts_count :: nat
  async_scripts_count :: nat
  defer_scripts_count :: nat
  images_count :: nat
  lazy_loaded_images_count :: nat
  large_images_count :: nat
  has_responsive_meta :: bool
  responsive_meta_content :: string
  media_queries_count :: nat
  has_manifest :: bool
  has_service_worker :: bool
  aria_attributes_count :: nat
  is_reputable_domain :: bool

datatype payload = Signals website_data | ErrorData string string

type_synonym extract_result = "payload \<times> bool"

text \<open>
  \<open>cached_function expiry_seconds\<close>, applied to \<open>func\<close>: the dictionary \<open>cache\<close> of the
  decorator maps a key to a result and the time it was stored. \<open>key_of\<close> gives the key
  of the arguments.
\<close>

type_synonym 'r cache = "string \<rightharpoonup> 'r \<times> real"

definition cached_function ::
  "real \<Rightarrow> ('a \<Rightarrow> string) \<Rightarrow> ('a \<Rightarrow> 'z world_scheme \<Rightarrow> 'r \<times> 'z world_scheme) \<Rightarrow> 'a
     \<Rightarrow> 'r cache \<times> 'z world_scheme \<Rightarrow> 'r \<times> 'r cache \<times> 'z world_scheme" where
  "cached_function expiry_seconds key_of func args st =
     (let (cache, w) = st;
          key = key_of args;
          hit = (case cache key of
                   Some (result, timestamp) \<Rightarrow>
                     if clock w - timestamp < expiry_seconds then Some result else None
                 | None \<Rightarrow> None)
      in case hit of
           Some result \<Rightarrow> (result, cache, w)
         | None \<Rightarrow>
             (let (result, w1) = func args w
              in (result, cache(key \<mapsto> (result, clock w1)), w1)))"

text \<open>
  The server's world: the clock, the module's dictionary \<open>website_content_cache\<close>, and
  the list of the URLs requested from the network so far. \<open>network\<close> stands for what lines
  240 to 357 of the source do when they run now: the request, the status check and the
  extraction either raise an exception with a message or give the signals, and take some
  seconds.
\<close>

record server = world +
  website_content_cache :: "string \<rightharpoonup> website_data"
  fetched :: "string list"

type_synonym network = "(string + website_data) \<times> real"

definition extract_website_content_body ::
  "network \<Rightarrow> string \<Rightarrow> 'z server_scheme \<Rightarrow> extract_result \<times> 'z server_scheme" where
  "extract_website_content_body net url' w =
     (case website_content_cache w url' of
        Some data \<Rightarrow> ((Signals data, True), w)
      | None \<Rightarrow>
          (let w1 = w\<lparr>clock := clock w + snd net, fetched := fetched w @ [url']\<rparr>
           in case fst net of
                Inr website_data \<Rightarrow>
                  ((Signals website_data, True),
                   w1\<lparr>website_content_cache := (website_content_cache w1)(url' \<mapsto> website_data)\<rparr>)
              | Inl error_message \<Rightarrow> ((ErrorData error_message url', False), w1)))"

text \<open>The function as decorated: \<open>@cached_function(expiry_seconds=600)\<close>.\<close>

definition extract_website_content ::
  "network \<Rightarrow> string \<Rightarrow> extract_result cache \<times> 'z server_scheme
     \<Rightarrow> extract_result \<times> extract_result cache \<times> 'z server_scheme" where
  "extract_website_content net = cached_function 600 args_key (extract_website_content_body net)"

text \<open>
  The states of the two caches while the server runs: both start empty; time passes;
  \<open>extract_website_content\<close> is called.
\<close>

inductive serving :: "extract_result cache \<times> 'z server_scheme \<Rightarrow> bool" where
  boot: "website_content_cache w = Map.empty \<Longrightarrow> serving (Map.empty, w)"
| elapse: "serving (cache, w) \<Longrightarrow> 0 \<le> d \<Longrightarrow> serving (cache, w\<lparr>clock := clock w + d\<rparr>)"
| request: "serving st \<Longrightarrow> extract_website_content net url' st = (r, st') \<Longrightarrow> serving st'"

text \<open>A page, for the examples.\<close>

definition sample_page :: website_data where
  "sample_page =
     \<lparr>url = ''http://a.com'', title = ''A'', meta_description = [], meta_keywords = [],
      text_content = ''Sign up'', ctas_count = 1, forms_count = 0, nav_elements_count = 1,
      testimonials_count = 0, footer_elements_count = 1, scripts_count = 2,
      async_scripts_count = 1, defer_scripts_count = 0, images_count = 3,
      lazy_loaded_images_count = 0, large_images_count = 1, has_responsive_meta = True,
      responsive_meta_content = ''width=device-width'', media_queries_count = 0,
      has_manifest = False, has_service_worker = False, aria_attributes_count = 0,
      is_reputable_domain = False\<rparr>"


section \<open>JSON\<close>

text \<open>
  The values that \<open>json.loads\<close> returns. An object is the list of its keys and values
  in the order of a Python dictionary: a key that comes again keeps its place and takes
  the new value (\<open>dict_set\<close>).
\<close>

datatype json =
  JNull | JBool bool | JInt int | JFloat pyfloat | JString string
  | JArray "json list" | JObject "(string \<times> json) list"

fun dict_set :: "(string \<times> json) list \<Rightarrow> string \<Rightarrow> json \<Rightarrow> (string \<times> json) list" where
  "dict_set [] k v = [(k, v)]"
| "dict_set ((k', v') # kvs) k v = (if k' = k then (k, v) # kvs else (k', v') # dict_set kvs k v)"

text \<open>
  \<open>json_loads\<close> is \<open>json.loads\<close> on a string: \<open>None\<close> stands for the exception
  \<open>json.JSONDecodeError\<close>, the only one a malformed text raises. The decoder follows the
  library: white space is blank, tab, newline and return; strings are strict (no raw
  control character); \<open>NaN\<close>, \<open>Infinity\<close> and \<open>-Infinity\<close> are accepted; a number with a
  fraction or an exponent is a float, kept as the exact decimal. An escape \<open>\uXXXX\<close> above
  code point 255 has no character in the alphabet of the model and is rejected. The fuel of the
  three mutually recursive functions is twice the length of the text and is never used up.
\<close>

definition json_space :: "char \<Rightarrow> bool" where
  "json_space c = (c = CHR '' '' \<or> c = CHR 0x09 \<or> c = CHR 0x0A \<or> c = CHR 0x0D)"

definition skip_ws :: "string \<Rightarrow> string" where
  "skip_ws s = dropWhile json_space s"

definition hexval :: "char \<Rightarrow> nat option" where
  "hexval c =
     (let n = of_char c :: nat
      in if 48 \<le> n \<and> n \<le> 57 then Some (n - 48)
         else if 97 \<le> n \<and> n \<le> 102 then Some (n - 87)
         else if 65 \<le> n \<and> n \<le> 70 then Some (n - 55)
         else None)"

definition hex4 :: "char \<Rightarrow> char \<Rightarrow> char \<Rightarrow> char \<Rightarrow> nat option" where
  "hex4 a b c d =
     (case (hexval a, hexval b, hexval c, hexval d) of
        (Some x, Some y, Some z, Some u) \<Rightarrow> Some (((x * 16 + y) * 16 + z) * 16 + u)
      | _ \<Rightarrow> None)"

definition unescape :: "char \<Rightarrow> char option" where
  "unescape e =
     (if e = CHR 0x22 \<or> e = CHR 0x5C \<or> e = CHR ''/'' then Some e
      else if e = CHR ''b'' then Some (CHR 0x08)
      else if e = CHR ''f'' then Some (CHR 0x0C)
      else if e = CHR ''n'' then Some (CHR 0x0A)
      else if e = CHR ''r'' then Some (CHR 0x0D)
      else if e = CHR ''t'' then Some (CHR 0x09)
      else None)"

definition cons_string :: "char \<Rightarrow> (string \<times> string) option \<Rightarrow> (string \<times> string) option" where
  "cons_string c r = map_option (\<lambda>(s, rest). (c # s, rest)) r"

fun scan_string :: "string \<Rightarrow> (string \<times> string) option" where
  "scan_string [] = None"
| "scan_string (c # cs) =
     (if c = CHR 0x22 then Some ([], cs)
      else if c = CHR 0x5C then
        (case cs of
           [] \<Rightarrow> None
         | e # r \<Rightarrow>
             if e = CHR ''u'' then
               (case r of
                  h1 # h2 # h3 # h4 # r' \<Rightarrow>
                    (case hex4 h1 h2 h3 h4 of
                       Some n \<Rightarrow> if n < 256 then cons_string (char_of n) (scan_string r') else None
                     | None \<Rightarrow> None)
                | _ \<Rightarrow> None)
             else
               (case unescape e of
                  Some d \<Rightarrow> cons_string d (scan_string r)
                | None \<Rightarrow> None))
      else if (of_char c :: nat) < 32 then None
      else cons_string c (scan_string cs))"

text \<open>
  A number is what the expression \<^verbatim>\<open>(-?(?:0|[1-9]\d*))(\.\d+)?([eE][-+]?\d+)?\<close> matches:
  the sign, the integer part, the fraction and the exponent, each with the text left
  after it.
\<close>

definition minus_sign :: "string \<Rightarrow> bool \<times> string" where
  "minus_sign s =
     (case s of c # r \<Rightarrow> if c = CHR ''-'' then (True, r) else (False, s) | [] \<Rightarrow> (False, s))"

definition int_part :: "string \<Rightarrow> string \<times> string" where
  "int_part s =
     (case s of
        c # r \<Rightarrow> if c = CHR ''0'' then ([c], r)
                 else (takeWhile is_decimal s, dropWhile is_decimal s)
      | [] \<Rightarrow> ([], s))"

definition frac_part :: "string \<Rightarrow> string \<times> string" where
  "frac_part s =
     (case s of
        p # d # r \<Rightarrow>
          if p = CHR ''.'' \<and> is_decimal d
          then (takeWhile is_decimal (d # r), dropWhile is_decimal (d # r))
          else ([], s)
      | _ \<Rightarrow> ([], s))"

definition exp_part :: "string \<Rightarrow> int option \<times> string" where
  "exp_part s =
     (case s of
        e # r \<Rightarrow>
          if e = CHR ''e'' \<or> e = CHR ''E'' then
            (let (eneg, r1) =
               (case r of
                  sg # r' \<Rightarrow> if sg = CHR ''-'' then (True, r')
                             else if sg = CHR ''+'' then (False, r') else (False, r)
                | [] \<Rightarrow> (False, r));
                 ds = takeWhile is_decimal r1
             in if ds = [] then (None, s)
                else (Some (if eneg then - digits_value ds else digits_value ds),
                      dropWhile is_decimal r1))
          else (None, s)
      | [] \<Rightarrow> (None, s))"

definition scan_number :: "string \<Rightarrow> (json \<times> string) option" where
  "scan_number s =
     (let (neg, s1) = minus_sign s;
          (ip, s2) = int_part s1;
          (fp, s3) = frac_part s2;
          (ex, s4) = exp_part s3
      in if ip = [] then None
         else if fp = [] \<and> ex = None then
           Some (JInt (if neg then - digits_value ip else digits_value ip), s4)
         else
           (let m = of_int (digits_value (ip @ fp)) :: rat;
                k = (case ex of Some e \<Rightarrow> e | None \<Rightarrow> 0) - int (length fp);
                q = (if k \<ge> 0 then m * 10 ^ nat k else m / 10 ^ nat (- k))
            in Some (JFloat (Finite (if neg then - q else q)), s4)))"

fun parse_value :: "nat \<Rightarrow> string \<Rightarrow> (json \<times> string) option"
  and parse_array :: "nat \<Rightarrow> json list \<Rightarrow> string \<Rightarrow> (json \<times> string) option"
  and parse_object :: "nat \<Rightarrow> (string \<times> json) list \<Rightarrow> string \<Rightarrow> (json \<times> string) option"
  where
  "parse_value 0 s = None"
| "parse_value (Suc n) s =
     (case s of
        [] \<Rightarrow> None
      | c # cs \<Rightarrow>
          if c = CHR 0x22 then map_option (\<lambda>(str, r). (JString str, r)) (scan_string cs)
          else if c = CHR ''{'' then
            (if starts_with (skip_ws cs) ''}'' then Some (JObject [], drop 1 (skip_ws cs))
             else parse_object n [] (skip_ws cs))
          else if c = CHR ''['' then
            (if starts_with (skip_ws cs) '']'' then Some (JArray [], drop 1 (skip_ws cs))
             else parse_array n [] (skip_ws cs))
          else if starts_with s ''null'' then Some (JNull, drop 4 s)
          else if starts_with s ''true'' then Some (JBool True, drop 4 s)
          else if starts_with s ''false'' then Some (JBool False, drop 5 s)
          else
            (case scan_number s of
               Some r \<Rightarrow> Some r
             | None \<Rightarrow>
                 if starts_with s ''NaN'' then Some (JFloat NaN, drop 3 s)
                 else if starts_with s ''Infinity'' then Some (JFloat PosInf, drop 8 s)
                 else if starts_with s ''-Infinity'' then Some (JFloat NegInf, drop 9 s)
                 else None))"
| "parse_array 0 acc s = None"
| "parse_array (Suc n) acc s =
     (case parse_value n s of
        None \<Rightarrow> None
      | Some (v, r) \<Rightarrow>
          (case skip_ws r of
             [] \<Rightarrow> None
           | c # r' \<Rightarrow>
               if c = CHR '']'' then Some (JArray (rev (v # acc)), r')
               else if c = CHR '','' then parse_array n (v # acc) (skip_ws r')
               else None))"
| "parse_object 0 acc s = None"
| "parse_object (Suc n) acc s =
     (case s of
        [] \<Rightarrow> None
      | q # r \<Rightarrow>
          if q \<noteq> CHR 0x22 then None
          else
            (case scan_string r of
               None \<Rightarrow> None
             | Some (k, r1) \<Rightarrow>
                 (case skip_ws r1 of
                    [] \<Rightarrow> None
                  | c # r2 \<Rightarrow>
                      if c \<noteq> CHR '':'' then None
                      else
                        (case parse_value n (skip_ws r2) of
                           None \<Rightarrow> None
                         | Some (v, r3) \<Rightarrow>
                             (case skip_ws r3 of
                                [] \<Rightarrow> None
                              | d # r4 \<Rightarrow>
                                  if d = CHR ''}'' then Some (JObject (dict_set acc k v), r4)
                                  else if d = CHR '','' then
                                    parse_object n (dict_set acc k v) (skip_ws r4)
                                  else None)))))"


section \<open>Salvaging JSON from the model's reply\<close>





definition create_default_response :: json where
  "create_default_response =
     JObject
       [(''overall_score'', JInt 65),
        (''health_score'',
           JObject [(''value'', JInt 65), (''category'', JString ''Needs Improvement''),
                    (''description'', JString ''Several significant issues that need attention.'')]),
        (''issues'',
           JArray
             [JObject
                [(''category'', JString ''Error Processing''),
                 (''description'',
                    JString ''We encountered an issue analyzing this website. Please try again.''),
                 (''impact'', JString ''High''),
                 (''solution'', JString ''Refresh and retry the analysis.'')]])]"






section \<open>Analysis\<close>










text \<open>Reading a key of a report.\<close>

definition json_get :: "json \<Rightarrow> string \<Rightarrow> json option" where
  "json_get j k = (case j of JObject kvs \<Rightarrow> map_of kvs k | _ \<Rightarrow> None)"




section \<open>Properties of the health score\<close>

lemma hs_value_eq:
  "hs_value (calculate_health_score s r k) =
     (let s1 = (if r then min 100 (s + min 10 (max 5 (s div 10))) else s)
      in if k > 0 then min 100 (s1 + min 5 k) else s1)"
  unfolding calculate_health_score_def Let_def
  by (simp only: if_distrib [of hs_value] health_score.select_convs if_cancel)

lemma category_eq:
  "category (calculate_health_score s r k) =
     (let v = hs_value (calculate_health_score s r k)
      in if v \<ge> 90 then ''Excellent'' else if v \<ge> 80 then ''Very Good''
         else if v \<ge> 70 then ''Good'' else if v \<ge> 60 then ''Needs Improvement''
         else if v \<ge> 50 then ''Poor'' else ''Critical'')"
  unfolding calculate_health_score_def Let_def
  by (simp only: if_distrib [of hs_value] if_distrib [of category]
        health_score.select_convs if_cancel)

lemma description_eq:
  "description (calculate_health_score s r k) =
     (let v = hs_value (calculate_health_score s r k)
      in if v \<ge> 90 then
           ''Your website is optimized for conversions with only minor improvements needed.''
         else if v \<ge> 80 then
           ''Your website performs well but has some opportunities for improvement.''
         else if v \<ge> 70 then
           ''Your website has a solid foundation but several areas need attention.''
         else if v \<ge> 60 then
           ''Your website has some issues that may be impacting conversions.''
         else if v \<ge> 50 then
           ''Your website has significant conversion issues that need attention.''
         else ''Your website has critical issues that are severely limiting conversions.'')"
  unfolding calculate_health_score_def Let_def
  by (simp only: if_distrib [of hs_value] if_distrib [of description]
        health_score.select_convs if_cancel)

lemma reputation_step_mono_aux:
  fixes s s' d d' :: int
  assumes "s \<le> s'" and "d \<le> d'"
  shows "min 100 (s + min 10 (max 5 d)) \<le> min 100 (s' + min 10 (max 5 d'))"
  using assms by arith

lemma reputation_step_mono:
  fixes s s' :: int
  assumes "s \<le> s'"
  shows "min 100 (s + min 10 (max 5 (s div 10))) \<le> min 100 (s' + min 10 (max 5 (s' div 10)))"
proof -
  have "s div 10 \<le> s' div 10"
    using assms by (simp add: zdiv_mono1)
  with assms show ?thesis
    by (rule reputation_step_mono_aux)
qed

lemma reputation_step_bounds:
  fixes s d :: int
  shows "min s 100 \<le> min 100 (s + min 10 (max 5 d))"
    and "min 100 (s + min 10 (max 5 d)) \<le> max s 100"
  by arith+

lemma indicator_step_mono:
  fixes a b k :: int
  assumes "a \<le> b"
  shows "(if k > 0 then min 100 (a + min 5 k) else a)
           \<le> (if k > 0 then min 100 (b + min 5 k) else b)"
  using assms by (cases "k > 0"; simp; arith?)

lemma indicator_step_bounds:
  fixes a s k :: int
  shows "min s 100 \<le> a \<Longrightarrow> min s 100 \<le> (if k > 0 then min 100 (a + min 5 k) else a)"
    and "a \<le> max s 100 \<Longrightarrow> (if k > 0 then min 100 (a + min 5 k) else a) \<le> max s 100"
  by (cases "k > 0"; simp; arith)+

lemma hs_value_mono:
  assumes "s \<le> s'"
  shows "hs_value (calculate_health_score s r k) \<le> hs_value (calculate_health_score s' r k)"
proof -
  define a where "a = (if r then min 100 (s + min 10 (max 5 (s div 10))) else s)"
  define b where "b = (if r then min 100 (s' + min 10 (max 5 (s' div 10))) else s')"
  have ab: "a \<le> b"
  proof (cases r)
    case True
    then show ?thesis
      unfolding a_def b_def using reputation_step_mono [OF assms] by (simp only: if_True)
  next
    case False
    then show ?thesis
      unfolding a_def b_def using assms by (simp only: if_False)
  qed
  have "hs_value (calculate_health_score s r k) = (if k > 0 then min 100 (a + min 5 k) else a)"
    by (simp add: hs_value_eq a_def Let_def)
  moreover have "hs_value (calculate_health_score s' r k) = (if k > 0 then min 100 (b + min 5 k) else b)"
    by (simp add: hs_value_eq b_def Let_def)
  ultimately show ?thesis
    using indicator_step_mono [OF ab, of k] by (simp only:)
qed

lemma hs_value_bounds:
  "min s 100 \<le> hs_value (calculate_health_score s r k)"
  "hs_value (calculate_health_score s r k) \<le> max s 100"
proof -
  define a where "a = (if r then min 100 (s + min 10 (max 5 (s div 10))) else s)"
  have a1: "min s 100 \<le> a"
    unfolding a_def using reputation_step_bounds (1) [of s "s div 10"]
    by (cases r) (simp_all only: if_True if_False min.cobounded1)
  have a2: "a \<le> max s 100"
    unfolding a_def using reputation_step_bounds (2) [of s "s div 10"]
    by (cases r) (simp_all only: if_True if_False max.cobounded1)
  have v: "hs_value (calculate_health_score s r k) = (if k > 0 then min 100 (a + min 5 k) else a)"
    by (simp add: hs_value_eq a_def Let_def)
  show "min s 100 \<le> hs_value (calculate_health_score s r k)"
    unfolding v using a1 by (rule indicator_step_bounds)
  show "hs_value (calculate_health_score s r k) \<le> max s 100"
    unfolding v using a2 by (rule indicator_step_bounds)
qed

text \<open>
  C3. For a score between 0 and 100 and a count of optimization indicators (not negative),
  the adjusted value is the score plus the reputation bonus
  \<open>min 10 (max 5 (score div 10))\<close> when the domain is reputable, capped at 100, plus
  \<open>min 5 count\<close>, capped at 100 again. At score 80, reputable, no indicator, the bonus is 8
  and the value is 88.
\<close>

theorem health_score_adjustment:
  "(0 \<le> s \<and> s \<le> 100 \<and> 0 \<le> k \<longrightarrow>
      hs_value (calculate_health_score s r k) =
        min 100 ((if r then min 100 (s + min 10 (max 5 (s div 10))) else s) + min 5 k))
   \<and> min 10 (max 5 ((80::int) div 10)) = 8
   \<and> hs_value (calculate_health_score 80 True 0) = 80 + 8
   \<and> hs_value (calculate_health_score 80 True 0) = 88"
  by (simp add: hs_value_eq Let_def)

theorem health_score_adjustment_witness:
  "(0::int) \<le> 95 \<and> (95::int) \<le> 100 \<and> (0::int) \<le> 3
   \<and> hs_value (calculate_health_score 95 True 3) = 100"
  using health_score_adjustment [of 95 3 True] by simp

text \<open>
  C7. The category and description returned depend on the final value \<open>v\<close> only:
  Critical below 50, Poor from 50 to 59, Needs Improvement from 60 to 69, Good from 70 to 79,
  Very Good from 80 to 89, Excellent from 90 on, each with its fixed description. The six
  names are different, so every integer value has exactly one category; with no bonus
  (not reputable, no indicator) the value is the score itself.
\<close>

theorem tier_partition:
  assumes "h = calculate_health_score s r k" and "v = hs_value h"
  shows "(v < 50 \<longrightarrow> category h = ''Critical'' \<and> description h =
            ''Your website has critical issues that are severely limiting conversions.'')
       \<and> (50 \<le> v \<and> v \<le> 59 \<longrightarrow> category h = ''Poor'' \<and> description h =
            ''Your website has significant conversion issues that need attention.'')
       \<and> (60 \<le> v \<and> v \<le> 69 \<longrightarrow> category h = ''Needs Improvement'' \<and> description h =
            ''Your website has some issues that may be impacting conversions.'')
       \<and> (70 \<le> v \<and> v \<le> 79 \<longrightarrow> category h = ''Good'' \<and> description h =
            ''Your website has a solid foundation but several areas need attention.'')
       \<and> (80 \<le> v \<and> v \<le> 89 \<longrightarrow> category h = ''Very Good'' \<and> description h =
            ''Your website performs well but has some opportunities for improvement.'')
       \<and> (90 \<le> v \<longrightarrow> category h = ''Excellent'' \<and> description h =
            ''Your website is optimized for conversions with only minor improvements needed.'')
       \<and> distinct [''Critical'', ''Poor'', ''Needs Improvement'', ''Good'', ''Very Good'',
             ''Excellent'']
       \<and> hs_value (calculate_health_score s False 0) = s"
proof -
  have c: "category h = (if v \<ge> 90 then ''Excellent'' else if v \<ge> 80 then ''Very Good''
         else if v \<ge> 70 then ''Good'' else if v \<ge> 60 then ''Needs Improvement''
         else if v \<ge> 50 then ''Poor'' else ''Critical'')"
    using category_eq [of s r k] assms by (simp only: Let_def)
  have d: "description h = (if v \<ge> 90 then
           ''Your website is optimized for conversions with only minor improvements needed.''
         else if v \<ge> 80 then
           ''Your website performs well but has some opportunities for improvement.''
         else if v \<ge> 70 then
           ''Your website has a solid foundation but several areas need attention.''
         else if v \<ge> 60 then
           ''Your website has some issues that may be impacting conversions.''
         else if v \<ge> 50 then
           ''Your website has significant conversion issues that need attention.''
         else ''Your website has critical issues that are severely limiting conversions.'')"
    using description_eq [of s r k] assms by (simp only: Let_def)
  have e: "hs_value (calculate_health_score s False 0) = s"
    by (simp add: hs_value_eq)
  have f: "distinct [''Critical'', ''Poor'', ''Needs Improvement'', ''Good'', ''Very Good'',
             ''Excellent'']"
    by simp
  show ?thesis
    unfolding c d using e f by simp
qed

theorem tier_partition_witness:
  "category (calculate_health_score 55 False 0) = ''Poor''
   \<and> category (calculate_health_score 69 False 0) = ''Needs Improvement''
   \<and> category (calculate_health_score 80 True 0) = ''Very Good''"
  using tier_partition [OF refl refl, of 55 False 0]
        tier_partition [OF refl refl, of 69 False 0]
        tier_partition [OF refl refl, of 80 True 0]
  by (simp add: hs_value_eq)

text \<open>
  C10, as the code has it. The value is at least \<open>min score 100\<close> and at most
  \<open>max score 100\<close>; for a score of at most 100 it is at least the score; and for a fixed
  reputation flag and indicator count it does not decrease when the score grows.
  Above 100 a bonus caps the value at 100, below the score.
\<close>

theorem health_score_bounds_monotone:
  "min s 100 \<le> hs_value (calculate_health_score s r k)
   \<and> hs_value (calculate_health_score s r k) \<le> max s 100
   \<and> (s \<le> 100 \<longrightarrow> s \<le> hs_value (calculate_health_score s r k))
   \<and> (s \<le> s' \<longrightarrow>
        hs_value (calculate_health_score s r k) \<le> hs_value (calculate_health_score s' r k))"
proof -
  have "s \<le> 100 \<longrightarrow> s \<le> hs_value (calculate_health_score s r k)"
    using hs_value_bounds (1) [of s r k] by arith
  then show ?thesis
    using hs_value_bounds [of s r k] hs_value_mono [of s s' r k] by blast
qed

theorem health_score_bounds_monotone_witness:
  "(42::int) \<le> 100 \<and> (42::int) \<le> 97
   \<and> 42 \<le> hs_value (calculate_health_score 42 True 2)
   \<and> hs_value (calculate_health_score 42 True 2) \<le> hs_value (calculate_health_score 97 True 2)"
  using health_score_bounds_monotone [of 42 True 2 97] by simp

text \<open>
  The claim as stated (the value is at least the score, for every integer score) fails
  above 100: a reputable domain with score 105 gets the value 100.
\<close>

theorem health_score_lower_bound_counterexample:
  "hs_value (calculate_health_score 105 True 0) = 100
   \<and> hs_value (calculate_health_score 105 True 0) < 105"
  by (simp add: hs_value_eq)


section \<open>Properties of the large-dimension classifier\<close>




























section \<open>Properties of the rate limiter\<close>

lemma filter_length_le:
  "length (filter P xs) \<le> length xs"
  by simp

lemma wait_if_needed_config:
  assumes "wait_if_needed late self w = (x, self', w', tr)"
  shows "max_requests self' = max_requests self" and "per_minute self' = per_minute self"
  using assms
  by (auto simp add: wait_if_needed_def Let_def split: if_splits list.splits prod.splits)

lemma wait_if_needed_cases:
  fixes self :: GeminiRateLimiter and w :: "'z world_scheme" and late :: "real \<times> real"
  defines "c \<equiv> clock w"
  defines "W \<equiv> real_of_int (per_minute self * 60)"
  defines "P \<equiv> filter (\<lambda>ts. c - ts < W) (request_timestamps self)"
  defines "deadline \<equiv> last_retry_time self + of_int (retry_delay self)"
  defines "c1 \<equiv> (if c < deadline then deadline + fst late else c)"
  assumes r: "wait_if_needed late self w = (x, self', w', tr)"
  shows "int (length P) < max_requests self \<Longrightarrow>
           x = None \<and> request_timestamps self' = P @ [c] \<and> clock w' = c1"
    and "max_requests self \<le> int (length P) \<Longrightarrow> P = oldest # rest \<Longrightarrow>
           x = None \<and> request_timestamps self' = P @ [c]
           \<and> clock w' = c1 + (W - (c - oldest)) + snd late"
    and "max_requests self \<le> int (length P) \<Longrightarrow> P = [] \<Longrightarrow>
           x = Some IndexError \<and> request_timestamps self' = [] \<and> clock w' = c1"
  using r unfolding c_def W_def P_def deadline_def c1_def
  by (auto simp add: wait_if_needed_def Let_def sleep_def split: if_splits prod.splits)

lemma wait_if_needed_window:
  fixes self :: GeminiRateLimiter and w :: "'z world_scheme"
  assumes q: "1 \<le> max_requests self"
    and late: "0 \<le> fst late" "0 \<le> snd late"
    and inv: "int (length (in_window self (clock w))) \<le> max_requests self"
    and r: "wait_if_needed late self w = (x, self', w', tr)"
  shows "x = None \<and> int (length (in_window self' (clock w'))) \<le> max_requests self'"
proof -
  define c where "c = clock w"
  define W where "W = real_of_int (per_minute self * 60)"
  define P where "P = filter (\<lambda>ts. c - ts < W) (request_timestamps self)"
  define deadline where "deadline = last_retry_time self + of_int (retry_delay self)"
  define c1 where "c1 = (if c < deadline then deadline + fst late else c)"
  note cases = wait_if_needed_cases [OF r]
  note defs = c_def W_def P_def deadline_def c1_def
  have cfg: "max_requests self' = max_requests self" "per_minute self' = per_minute self"
    using wait_if_needed_config [OF r] by simp_all
  have lenP: "int (length P) \<le> max_requests self"
    using inv by (simp add: in_window_def P_def c_def W_def)
  have c1: "c \<le> c1"
    using late(1) by (simp add: c1_def)
  show ?thesis
  proof (cases "int (length P) < max_requests self")
    case True
    then have x: "x = None" and ts: "request_timestamps self' = P @ [c]"
      using cases(1) unfolding defs by simp_all
    have "length (in_window self' (clock w')) \<le> length (P @ [c])"
      unfolding in_window_def ts by (rule filter_length_le)
    then show ?thesis
      using True x cfg by simp
  next
    case False
    then have ge: "max_requests self \<le> int (length P)"
      by simp
    then obtain oldest rest where P: "P = oldest # rest"
      using q by (cases P) auto
    have x: "x = None" and ts: "request_timestamps self' = P @ [c]"
      and cl: "clock w' = c1 + (W - (c - oldest)) + snd late"
      using cases(2) [of oldest rest] ge P unfolding defs by simp_all
    have out: "\<not> clock w' - oldest < W"
      using cl c1 late(2) by simp
    have "in_window self' (clock w') = filter (\<lambda>ts. clock w' - ts < W) (rest @ [c])"
      using out by (simp add: in_window_def ts P cfg W_def)
    then have "length (in_window self' (clock w')) \<le> length (rest @ [c])"
      by (simp only: filter_length_le)
    then have "int (length (in_window self' (clock w'))) \<le> int (length P)"
      using P by simp
    then show ?thesis
      using x lenP cfg by simp
  qed
qed


lemma filter_mono_length:
  assumes "\<And>x. P x \<Longrightarrow> Q x"
  shows "length (filter P xs) \<le> length (filter Q xs)"
  using assms by (induction xs) auto

lemma handle_rate_limit_error_fields:
  "max_requests (handle_rate_limit_error self e w) = max_requests self"
  "per_minute (handle_rate_limit_error self e w) = per_minute self"
  "request_timestamps (handle_rate_limit_error self e w) = request_timestamps self"
  "last_retry_time (handle_rate_limit_error self e w) = clock w"
  "retry_delay (handle_rate_limit_error self e w) = retry_seconds e"
  by (simp_all add: handle_rate_limit_error_def retry_seconds_def split: attr.splits)

lemma wait_if_needed_empty_quota:
  fixes self :: GeminiRateLimiter and w :: "'z world_scheme"
  assumes "max_requests self < 1" and "request_timestamps self = []"
    and r: "wait_if_needed late self w = (x, self', w', tr)"
  shows "x = Some IndexError \<and> request_timestamps self' = []"
  using wait_if_needed_cases(3) [OF r] assms(1,2) by simp

lemma reachable_invariant:
  assumes "reachable q m (self, w)"
  shows "max_requests self = q \<and> per_minute self = m
         \<and> (1 \<le> q \<longrightarrow> int (length (in_window self (clock w))) \<le> q)
         \<and> (q < 1 \<longrightarrow> request_timestamps self = [])"
  using assms
proof (induction "(self, w)" arbitrary: self w rule: reachable.induct)
  case (start w)
  then show ?case
    by (simp add: init_def in_window_def)
next
  case (elapse self w d)
  have "length (in_window self (clock w + d)) \<le> length (in_window self (clock w))"
    unfolding in_window_def using elapse(3) by (intro filter_mono_length) simp
  then show ?case
    using elapse(2) by auto
next
  case (acquire self w late x self' w' tr)
  have cfg: "max_requests self' = q" "per_minute self' = m"
    using wait_if_needed_config [OF acquire(5)] acquire(2) by simp_all
  show ?case
  proof (cases "1 \<le> q")
    case True
    then show ?thesis
      using wait_if_needed_window [OF _ acquire(3,4) _ acquire(5)] acquire(2) cfg by simp
  next
    case False
    then show ?thesis
      using wait_if_needed_empty_quota [OF _ _ acquire(5)] acquire(2) cfg by simp
  qed
next
  case (signal self w e)
  then show ?case
    by (auto simp add: handle_rate_limit_error_fields in_window_def)
qed

lemma wait_if_needed_deadline:
  fixes self :: GeminiRateLimiter and w :: "'z world_scheme"
  assumes "clock w < last_retry_time self + of_int (retry_delay self)"
    and "0 \<le> fst late"
    and "wait_if_needed late self w = (x, self', w', tr)"
  shows "\<exists>c n rest. tr = Slept (last_retry_time self + of_int (retry_delay self) - clock w)
                         # Checked c n # rest
                     \<and> last_retry_time self + of_int (retry_delay self) \<le> c"
  using assms
  by (auto simp add: wait_if_needed_def Let_def sleep_def split: if_splits list.splits)

lemma wait_if_needed_clock:
  fixes self :: GeminiRateLimiter and w :: "'z world_scheme"
  assumes late: "0 \<le> fst late" "0 \<le> snd late"
    and r: "wait_if_needed late self w = (x, self', w', tr)"
  shows "clock w \<le> clock w'"
    and "last_retry_time self + of_int (retry_delay self) \<le> clock w'"
proof -
  define c where "c = clock w"
  define W where "W = real_of_int (per_minute self * 60)"
  define P where "P = filter (\<lambda>ts. c - ts < W) (request_timestamps self)"
  define deadline where "deadline = last_retry_time self + of_int (retry_delay self)"
  define c1 where "c1 = (if c < deadline then deadline + fst late else c)"
  note cases = wait_if_needed_cases [OF r]
  note defs = c_def W_def P_def deadline_def c1_def
  have c1: "c \<le> c1" "deadline \<le> c1"
    using late(1) by (simp_all add: c1_def)
  have "c1 \<le> clock w'"
  proof (cases "int (length P) < max_requests self")
    case True
    then show ?thesis
      using cases(1) unfolding defs by simp
  next
    case False
    show ?thesis
    proof (cases P)
      case Nil
      then show ?thesis
        using cases(3) False unfolding defs by simp
    next
      case (Cons oldest rest)
      then have "oldest \<in> set P"
        by simp
      then have "c - oldest < W"
        by (simp add: P_def)
      moreover have "clock w' = c1 + (W - (c - oldest)) + snd late"
        using cases(2) [of oldest rest] False Cons unfolding defs by simp
      ultimately show ?thesis
        using late(2) by simp
    qed
  qed
  then show "clock w \<le> clock w'" and "last_retry_time self + of_int (retry_delay self) \<le> clock w'"
    using c1 by (simp_all add: c_def deadline_def)
qed

lemma wait_if_needed_no_invocation:
  assumes "wait_if_needed late self w = (x, self', w', tr)"
  shows "invocations tr = 0"
  using assms
  by (auto simp add: wait_if_needed_def Let_def invocations_def split: if_splits list.splits)

lemma wait_if_needed_total:
  fixes self :: GeminiRateLimiter and w :: "'z world_scheme"
  assumes "1 \<le> max_requests self" and r: "wait_if_needed late self w = (x, self', w', tr)"
  shows "x = None"
  using assms
  by (auto simp add: wait_if_needed_def Let_def split: if_splits list.splits)


lemma wait_if_needed_recorded:
  fixes self :: GeminiRateLimiter and w :: "'z world_scheme"
  assumes "wait_if_needed late self w = (None, self', w', tr)"
  shows "\<exists>ts. request_timestamps self' = ts @ [clock w]"
  using assms
  by (auto simp add: wait_if_needed_def Let_def split: if_splits list.splits)

text \<open>
  C6. In every state a limiter can reach, a call of \<open>wait_if_needed\<close> that returns has
  recorded the call, and at the time it returns the number of recorded timestamps in the
  trailing window of \<open>per_minute * 60\<close> seconds is at most \<open>max_requests\<close>; with a quota
  of at least 1 the call always returns. And in any state where the retry deadline
  \<open>last_retry_time + retry_delay\<close> has not passed, the call first sleeps until the
  deadline and makes the count check after it.
\<close>

theorem window_quota_and_deadline:
  fixes self :: GeminiRateLimiter and w :: "'z world_scheme"
    and s0 :: GeminiRateLimiter and w0 :: "'y world_scheme"
  shows
  "(reachable q m (self, w) \<and> 0 \<le> fst late \<and> 0 \<le> snd late
      \<and> wait_if_needed late self w = (x, self', w', tr) \<longrightarrow>
      (1 \<le> q \<longrightarrow> x = None)
      \<and> (x = None \<longrightarrow>
            (\<exists>ts. request_timestamps self' = ts @ [clock w])
            \<and> int (length (in_window self' (clock w'))) \<le> max_requests self'))
   \<and> (clock w0 < last_retry_time s0 + of_int (retry_delay s0) \<and> 0 \<le> fst late0
        \<and> wait_if_needed late0 s0 w0 = (x0, s0', w0', tr0) \<longrightarrow>
        (\<exists>c n rest.
           tr0 = Slept (last_retry_time s0 + of_int (retry_delay s0) - clock w0)
                   # Checked c n # rest
           \<and> last_retry_time s0 + of_int (retry_delay s0) \<le> c))"
proof -
  have a: "(1 \<le> q \<longrightarrow> x = None)
      \<and> (x = None \<longrightarrow>
            (\<exists>ts. request_timestamps self' = ts @ [clock w])
            \<and> int (length (in_window self' (clock w'))) \<le> max_requests self')"
    if reach: "reachable q m (self, w)" and late: "0 \<le> fst late" "0 \<le> snd late"
      and r: "wait_if_needed late self w = (x, self', w', tr)"
  proof (cases "1 \<le> q")
    case True
    have inv: "max_requests self = q" "int (length (in_window self (clock w))) \<le> q"
      using reachable_invariant [OF reach] True by simp_all
    have "x = None \<and> int (length (in_window self' (clock w'))) \<le> max_requests self'"
      using wait_if_needed_window [OF _ late _ r] inv True by simp
    then show ?thesis
      using wait_if_needed_recorded [of late self w self' w' tr] r by simp
  next
    case False
    have "max_requests self = q" "request_timestamps self = []"
      using reachable_invariant [OF reach] False by simp_all
    then have "x = Some IndexError"
      using wait_if_needed_empty_quota [OF _ _ r] False by simp
    then show ?thesis
      using False by simp
  qed
  have b: "\<exists>c n rest.
           tr0 = Slept (last_retry_time s0 + of_int (retry_delay s0) - clock w0)
                   # Checked c n # rest
           \<and> last_retry_time s0 + of_int (retry_delay s0) \<le> c"
    if "clock w0 < last_retry_time s0 + of_int (retry_delay s0)" and "0 \<le> fst late0"
      and "wait_if_needed late0 s0 w0 = (x0, s0', w0', tr0)"
    using that by (rule wait_if_needed_deadline)
  show ?thesis
    using a b by blast
qed

theorem window_quota_and_deadline_witness:
  "reachable 1 1
     (\<lparr>max_requests = 1, per_minute = 1, request_timestamps = [0], last_retry_time = 0,
       retry_delay = 0\<rparr>, \<lparr>clock = 0\<rparr>)
   \<and> wait_if_needed (0, 0)
        \<lparr>max_requests = 1, per_minute = 1, request_timestamps = [0], last_retry_time = 0,
          retry_delay = 0\<rparr> \<lparr>clock = 0\<rparr>
       = (None,
          \<lparr>max_requests = 1, per_minute = 1, request_timestamps = [0, 0], last_retry_time = 0,
            retry_delay = 0\<rparr>,
          \<lparr>clock = 60\<rparr>, [Checked 0 1, Slept 60, Recorded 0])
   \<and> int (length (in_window
          \<lparr>max_requests = 1, per_minute = 1, request_timestamps = [0, 0], last_retry_time = 0,
            retry_delay = 0\<rparr> 60)) \<le> 1
   \<and> wait_if_needed (0, 0)
        \<lparr>max_requests = 60, per_minute = 1, request_timestamps = [], last_retry_time = 100,
          retry_delay = 30\<rparr> \<lparr>clock = 110\<rparr>
       = (None,
          \<lparr>max_requests = 60, per_minute = 1, request_timestamps = [110], last_retry_time = 100,
            retry_delay = 30\<rparr>,
          \<lparr>clock = 130\<rparr>, [Slept 20, Checked 130 0, Recorded 110])"
proof -
  define s1 where "s1 = \<lparr>max_requests = 1, per_minute = 1, request_timestamps = [0::real],
    last_retry_time = 0, retry_delay = 0\<rparr>"
  define s2 where "s2 = \<lparr>max_requests = 1, per_minute = 1, request_timestamps = [0::real, 0],
    last_retry_time = 0, retry_delay = 0\<rparr>"
  define s0 where "s0 = \<lparr>max_requests = 60, per_minute = 1, request_timestamps = ([]::real list),
    last_retry_time = 100, retry_delay = 30\<rparr>"
  define s0' where "s0' = \<lparr>max_requests = 60, per_minute = 1, request_timestamps = [110::real],
    last_retry_time = 100, retry_delay = 30\<rparr>"
  have step1: "wait_if_needed (0, 0) (init 1 1) \<lparr>clock = 0\<rparr>
                 = (None, s1, \<lparr>clock = 0\<rparr>, [Checked 0 0, Recorded 0])"
    by (simp add: wait_if_needed_def init_def s1_def Let_def)
  have reach: "reachable 1 1 (s1, \<lparr>clock = 0\<rparr>)"
    using reachable.acquire [OF reachable.start, of "(0, 0)" 1 1 "\<lparr>clock = 0\<rparr>"] step1 by simp
  have step2: "wait_if_needed (0, 0) s1 \<lparr>clock = 0\<rparr>
                 = (None, s2, \<lparr>clock = 60\<rparr>, [Checked 0 1, Slept 60, Recorded 0])"
    by (simp add: wait_if_needed_def s1_def s2_def Let_def sleep_def)
  have step0: "wait_if_needed (0, 0) s0 \<lparr>clock = 110\<rparr>
                 = (None, s0', \<lparr>clock = 130\<rparr>, [Slept 20, Checked 130 0, Recorded 110])"
    by (simp add: wait_if_needed_def s0_def s0'_def Let_def sleep_def)
  note inst = window_quota_and_deadline [of 1 1 s1 "\<lparr>clock = 0\<rparr>" "(0, 0)" None s2
      "\<lparr>clock = 60\<rparr>" "[Checked 0 1, Slept 60, Recorded 0]" "\<lparr>clock = 110\<rparr>" s0 "(0, 0)" None
      s0' "\<lparr>clock = 130\<rparr>" "[Slept 20, Checked 130 0, Recorded 110]"]
  have "int (length (in_window s2 (clock \<lparr>clock = 60\<rparr>))) \<le> max_requests s2"
    using inst reach step2 by simp
  then have "int (length (in_window s2 60)) \<le> 1"
    by (simp add: s2_def)
  then show ?thesis
    using reach step2 step0 unfolding s1_def s2_def s0_def s0'_def by simp
qed


lemma invocations_append:
  "invocations (a @ b) = invocations a + invocations b"
  by (simp add: invocations_def)

lemma invocations_simps:
  "invocations [] = 0" "invocations (Invoked # tr) = Suc (invocations tr)"
  "invocations (Signalled t # tr) = invocations tr"
  by (simp_all add: invocations_def)

text \<open>
  C5. When the first call of the wrapped function raises \<open>e\<close>: if the text of \<open>e\<close>
  contains quota (in any case) or 429, the wrapper sets the retry deadline to the current
  time plus the delay of \<open>e\<close>, waits until it has passed, calls the function a second
  time and returns or raises whatever that call does, so the function is called twice;
  otherwise the wrapper raises \<open>e\<close> after the one call.
\<close>

theorem quota_error_retried_once:
  fixes rate_limiter :: GeminiRateLimiter and w :: "'z world_scheme"
    and func :: "'z world_scheme \<Rightarrow> (pyexn + 'a) \<times> 'z world_scheme"
  assumes quota: "1 \<le> max_requests rate_limiter"
    and late: "0 \<le> fst (snd late)" "0 \<le> snd (snd late)"
    and first_wait: "wait_if_needed (fst late) rate_limiter w = (x, rl1, w1, tr1)"
    and first_call: "func w1 = (Inl e, w2)"
  shows "(is_rate_limit_error e \<longrightarrow>
           (\<exists>rl2 w3 tr2 r w4 tr.
              wait_if_needed (snd late) (handle_rate_limit_error rl1 e w2) w2 = (None, rl2, w3, tr2)
              \<and> last_retry_time (handle_rate_limit_error rl1 e w2)
                   + of_int (retry_delay (handle_rate_limit_error rl1 e w2))
                  = clock w2 + of_int (retry_seconds e)
              \<and> clock w2 + of_int (retry_seconds e) \<le> clock w3
              \<and> func w3 = (r, w4)
              \<and> wrapper func late rate_limiter w = (r, rl2, w4, tr)
              \<and> tr = tr1 @ [Invoked, Signalled (clock w2)] @ tr2 @ [Invoked]
              \<and> invocations tr = 2))
       \<and> (\<not> is_rate_limit_error e \<longrightarrow>
             wrapper func late rate_limiter w = (Inl e, rl1, w2, tr1 @ [Invoked])
             \<and> invocations (tr1 @ [Invoked]) = 1)"
proof -
  have x: "x = None"
    using wait_if_needed_total [OF quota first_wait] .
  have i1: "invocations tr1 = 0"
    using wait_if_needed_no_invocation [OF first_wait] .
  have q1: "1 \<le> max_requests (handle_rate_limit_error rl1 e w2)"
    using wait_if_needed_config(1) [OF first_wait] quota
    by (simp add: handle_rate_limit_error_fields)
  obtain y rl2 w3 tr2 where second_wait:
    "wait_if_needed (snd late) (handle_rate_limit_error rl1 e w2) w2 = (y, rl2, w3, tr2)"
    by (metis prod_cases4)
  have y: "y = None"
    using wait_if_needed_total [OF q1 second_wait] .
  have i2: "invocations tr2 = 0"
    using wait_if_needed_no_invocation [OF second_wait] .
  have c3: "clock w2 + of_int (retry_seconds e) \<le> clock w3"
    using wait_if_needed_clock(2) [OF late second_wait]
    by (simp add: handle_rate_limit_error_fields)
  obtain r w4 where second_call: "func w3 = (r, w4)"
    by (cases "func w3") auto
  have no: "\<not> is_rate_limit_error e \<Longrightarrow>
      wrapper func late rate_limiter w = (Inl e, rl1, w2, tr1 @ [Invoked])"
    by (simp add: wrapper_def first_wait x first_call except_clause_def)
  have yes: "is_rate_limit_error e \<Longrightarrow>
      wrapper func late rate_limiter w
        = (r, rl2, w4, tr1 @ [Invoked, Signalled (clock w2)] @ tr2 @ [Invoked])"
    by (simp add: wrapper_def first_wait x first_call except_clause_def second_wait y
        second_call)
  have n2: "invocations (tr1 @ [Invoked, Signalled (clock w2)] @ tr2 @ [Invoked]) = 2"
    by (simp add: invocations_append invocations_simps i1 i2)
  have n1: "invocations (tr1 @ [Invoked]) = 1"
    by (simp add: invocations_append invocations_simps i1)
  show ?thesis
    using no yes n1 n2 c3 second_call second_wait y
    by (auto simp add: handle_rate_limit_error_fields)
qed


theorem quota_error_retried_once_witness:
  "1 \<le> max_requests (init 60 1)
   \<and> wait_if_needed (0, 0) (init 60 1) \<lparr>clock = 0\<rparr>
       = (None, (init 60 1)\<lparr>request_timestamps := [0]\<rparr>, \<lparr>clock = 0\<rparr>, [Checked 0 0, Recorded 0])
   \<and> is_rate_limit_error \<lparr>message = ''429 quota exceeded'', retry_delay_attr = Seconds 10\<rparr>
   \<and> wrapper
         (\<lambda>w. if clock w < 10
              then (Inl \<lparr>message = ''429 quota exceeded'', retry_delay_attr = Seconds 10\<rparr>, w)
              else (Inr (200::nat), w))
         ((0, 0), (0, 0)) (init 60 1) \<lparr>clock = 0\<rparr>
       = (Inr 200,
          (init 60 1)\<lparr>request_timestamps := [0, 0], last_retry_time := 0, retry_delay := 10\<rparr>,
          \<lparr>clock = 10\<rparr>,
          [Checked 0 0, Recorded 0, Invoked, Signalled 0, Slept 10, Checked 10 1, Recorded 0,
           Invoked])"
proof -
  define e where "e = \<lparr>message = ''429 quota exceeded'', retry_delay_attr = Seconds 10\<rparr>"
  define f :: "world \<Rightarrow> (pyexn + nat) \<times> world"
    where "f = (\<lambda>w. if clock w < 10 then (Inl e, w) else (Inr 200, w))"
  have a: "1 \<le> max_requests (init 60 1)"
    by (simp add: init_def)
  have b: "wait_if_needed (0, 0) (init 60 1) \<lparr>clock = 0\<rparr>
       = (None, (init 60 1)\<lparr>request_timestamps := [0]\<rparr>, \<lparr>clock = 0\<rparr>, [Checked 0 0, Recorded 0])"
    by (simp add: wait_if_needed_def init_def Let_def)
  have c: "f \<lparr>clock = 0\<rparr> = (Inl e, \<lparr>clock = 0\<rparr>)"
    by (simp add: f_def)
  have d: "is_rate_limit_error e"
    by (simp add: is_rate_limit_error_def e_def)
  have g: "wait_if_needed (0, 0)
             (handle_rate_limit_error ((init 60 1)\<lparr>request_timestamps := [0]\<rparr>) e \<lparr>clock = 0\<rparr>)
             \<lparr>clock = 0\<rparr>
       = (None,
          (init 60 1)\<lparr>request_timestamps := [0, 0], last_retry_time := 0, retry_delay := 10\<rparr>,
          \<lparr>clock = 10\<rparr>, [Slept 10, Checked 10 1, Recorded 0])"
    by (simp add: wait_if_needed_def handle_rate_limit_error_def init_def Let_def sleep_def e_def)
  have h: "f \<lparr>clock = 10\<rparr> = (Inr 200, \<lparr>clock = 10\<rparr>)"
    by (simp add: f_def)
  have "wrapper f ((0, 0), (0, 0)) (init 60 1) \<lparr>clock = 0\<rparr>
       = (Inr 200,
          (init 60 1)\<lparr>request_timestamps := [0, 0], last_retry_time := 0, retry_delay := 10\<rparr>,
          \<lparr>clock = 10\<rparr>,
          [Checked 0 0, Recorded 0, Invoked, Signalled 0, Slept 10, Checked 10 1, Recorded 0,
           Invoked])"
    using quota_error_retried_once [of "init 60 1" "((0, 0), (0, 0))" "\<lparr>clock = 0\<rparr>" None
        "(init 60 1)\<lparr>request_timestamps := [0]\<rparr>" "\<lparr>clock = 0\<rparr>" "[Checked 0 0, Recorded 0]"
        f e "\<lparr>clock = 0\<rparr>"] a b c d g h
    by auto
  then show ?thesis
    using a b d unfolding f_def e_def by simp
qed


section \<open>Properties of the content cache\<close>

lemma of_char_hexdigit:
  "n < 16 \<Longrightarrow> of_char (hexdigit n) = (if n < 10 then 48 + n else 87 + n)"
  by (simp add: hexdigit_def)

lemma hexdigit_inj:
  assumes "n < 16" and "m < 16" and "hexdigit n = hexdigit m"
  shows "n = m"
proof -
  have "(of_char (hexdigit n) :: nat) = of_char (hexdigit m)"
    using assms(3) by simp
  then show ?thesis
    using assms(1,2) by (simp add: of_char_hexdigit split: if_splits)
qed

lemma hex_pair_inj:
  assumes "hexdigit (of_char a div 16) = hexdigit (of_char b div 16)"
    and "hexdigit (of_char a mod 16) = hexdigit (of_char b mod 16)"
  shows "a = b"
proof -
  have la: "(of_char a :: nat) < 256" and lb: "(of_char b :: nat) < 256"
    by (simp_all add: of_char_def)
  have d: "(of_char a :: nat) div 16 = of_char b div 16"
    using assms(1) la lb by (intro hexdigit_inj) (simp_all add: less_mult_imp_div_less)
  have m: "(of_char a :: nat) mod 16 = of_char b mod 16"
    using assms(2) by (intro hexdigit_inj) simp_all
  have "(of_char a :: nat) = of_char b"
    using d m by (metis div_mult_mod_eq)
  then show ?thesis
    by simp
qed


lemma escape_cases:
  "escape q c = [CHR 0x5C, c] \<and> (c = q \<or> c = CHR 0x5C)
   \<or> escape q c = [CHR 0x5C, CHR ''t''] \<and> c = CHR 0x09 \<and> c \<noteq> q
   \<or> escape q c = [CHR 0x5C, CHR ''n''] \<and> c = CHR 0x0A \<and> c \<noteq> q
   \<or> escape q c = [CHR 0x5C, CHR ''r''] \<and> c = CHR 0x0D \<and> c \<noteq> q
   \<or> escape q c = [CHR 0x5C, CHR ''x'', hexdigit (of_char c div 16), hexdigit (of_char c mod 16)]
   \<or> escape q c = [c] \<and> c \<noteq> CHR 0x5C \<and> c \<noteq> q"
  by (simp add: escape_def)

lemma escape_prefix_free:
  assumes "escape q a @ x = escape q b @ y" and "q = CHR 0x27 \<or> q = CHR 0x22"
  shows "a = b \<and> x = y"
  using escape_cases [of q a] escape_cases [of q b] assms
  by (elim disjE conjE) (auto dest: hex_pair_inj)

lemma concat_escape_inj:
  assumes "q = CHR 0x27 \<or> q = CHR 0x22"
  shows "concat (map (escape q) s) = concat (map (escape q) t) \<Longrightarrow> s = t"
proof (induction s arbitrary: t)
  case Nil
  then show ?case
    using escape_cases [of q "hd t"] by (cases t) auto
next
  case (Cons a s)
  show ?case
  proof (cases t)
    case Nil
    then show ?thesis
      using Cons.prems escape_cases [of q a] by auto
  next
    case (Cons b t')
    then have "escape q a @ concat (map (escape q) s) = escape q b @ concat (map (escape q) t')"
      using Cons.prems by simp
    then have "a = b" and "concat (map (escape q) s) = concat (map (escape q) t')"
      using escape_prefix_free [OF _ assms] by blast+
    then show ?thesis
      using Cons.IH Cons by simp
  qed
qed

lemma py_repr_inj:
  assumes "py_repr s = py_repr t"
  shows "s = t"
proof -
  define qs where "qs = (if CHR 0x27 \<in> set s \<and> CHR 0x22 \<notin> set s then CHR 0x22 else CHR 0x27)"
  define qt where "qt = (if CHR 0x27 \<in> set t \<and> CHR 0x22 \<notin> set t then CHR 0x22 else CHR 0x27)"
  have e: "qs # concat (map (escape qs) s) @ [qs] = qt # concat (map (escape qt) t) @ [qt]"
    using assms unfolding py_repr_def Let_def qs_def [symmetric] qt_def [symmetric] .
  then have q: "qs = qt"
    by simp
  have "concat (map (escape qs) s) = concat (map (escape qs) t)"
    using e unfolding q by simp
  moreover have "qs = CHR 0x27 \<or> qs = CHR 0x22"
    by (simp add: qs_def)
  ultimately show ?thesis
    by (rule concat_escape_inj [rotated])
qed

lemma args_key_inj:
  "args_key u = args_key u' \<Longrightarrow> u = u'"
  by (rule py_repr_inj) (simp add: args_key_def)


lemma extract_hit:
  assumes "cache (args_key u) = Some (r, ts)" and "clock w - ts < 600"
  shows "extract_website_content net u (cache, w) = (r, cache, w)"
  using assms by (simp add: extract_website_content_def cached_function_def)

lemma extract_miss:
  assumes "\<And>r ts. cache (args_key u) = Some (r, ts) \<Longrightarrow> \<not> clock w - ts < 600"
    and "extract_website_content_body net u w = (r1, w1)"
  shows "extract_website_content net u (cache, w) = (r1, cache(args_key u \<mapsto> (r1, clock w1)), w1)"
  using assms
  by (cases "cache (args_key u)")
     (auto simp add: extract_website_content_def cached_function_def)

lemma body_known:
  assumes "website_content_cache w u = Some data"
  shows "extract_website_content_body net u w = ((Signals data, True), w)"
  using assms by (simp add: extract_website_content_body_def)

lemma body_unknown:
  assumes "website_content_cache w u = None"
  shows "extract_website_content_body net u w =
     (case fst net of
        Inr d \<Rightarrow> ((Signals d, True),
                  w\<lparr>clock := clock w + snd net, fetched := fetched w @ [u],
                    website_content_cache := (website_content_cache w)(u \<mapsto> d)\<rparr>)
      | Inl m \<Rightarrow> ((ErrorData m u, False),
                  w\<lparr>clock := clock w + snd net, fetched := fetched w @ [u]\<rparr>))"
  using assms by (simp add: extract_website_content_body_def Let_def split: sum.splits)


lemma extract_cases:
  fixes w :: "'z server_scheme"
  assumes "extract_website_content net u (cache, w) = (r, cache', w')"
  shows "(\<exists>ts. cache (args_key u) = Some (r, ts) \<and> clock w - ts < 600 \<and> cache' = cache \<and> w' = w)
       \<or> (extract_website_content_body net u w = (r, w')
            \<and> cache' = cache(args_key u \<mapsto> (r, clock w')))"
  using assms
  by (auto simp add: extract_website_content_def cached_function_def Let_def
      split: option.splits prod.splits if_splits)

lemma body_cases:
  fixes w :: "'z server_scheme"
  assumes "extract_website_content_body net u w = (r, w')"
  shows "(\<exists>data. r = (Signals data, True) \<and> website_content_cache w' u = Some data
            \<and> (\<forall>v. v \<noteq> u \<longrightarrow> website_content_cache w' v = website_content_cache w v)
            \<and> (website_content_cache w u = None \<or> w' = w))
       \<or> (\<exists>m. r = (ErrorData m u, False) \<and> website_content_cache w' = website_content_cache w
            \<and> website_content_cache w u = None)"
  using assms
  by (auto simp add: extract_website_content_body_def Let_def split: option.splits sum.splits)

lemma serving_invariant:
  fixes w :: "'z server_scheme"
  assumes "serving (cache, w)"
  shows "cache (args_key u) = Some ((Signals data, b), ts) \<longrightarrow> website_content_cache w u = Some data"
  using assms
proof (induction "(cache, w)" arbitrary: cache w u data b ts rule: serving.induct)
  case (boot w)
  then show ?case by simp
next
  case (elapse cache w d)
  then show ?case by simp
next
  case (request st net v r cache' w')
  obtain cache0 w0 where st: "st = (cache0, w0)"
    by (cases st)
  note ih = request(2) [OF st]
  note call = request(3) [unfolded st]
  show ?case
  proof
    assume e: "cache' (args_key u) = Some ((Signals data, b), ts)"
    from extract_cases [OF call]
    show "website_content_cache w' u = Some data"
    proof
      assume "\<exists>ts. cache0 (args_key v) = Some (r, ts) \<and> clock w0 - ts < 600 \<and> cache' = cache0 \<and> w' = w0"
      then show ?thesis
        using e ih by auto
    next
      assume run: "extract_website_content_body net v w0 = (r, w')
            \<and> cache' = cache0(args_key v \<mapsto> (r, clock w'))"
      show ?thesis
      proof (cases "u = v")
        case True
        then have "r = (Signals data, b)"
          using e run by simp
        then show ?thesis
          using body_cases [of net v w0 r w'] run True by auto
      next
        case False
        then have "args_key u \<noteq> args_key v"
          using args_key_inj by blast
        then have "cache0 (args_key u) = Some ((Signals data, b), ts)"
          using e run by simp
        then have "website_content_cache w0 u = Some data"
          using ih by simp
        then show ?thesis
          using body_cases [of net v w0 r w'] run False by auto
      qed
    qed
  qed
qed

text \<open>
  C9. While the server runs, when a call of \<open>extract_website_content\<close> for a URL has
  succeeded and a second call for the same URL is made less than 600 seconds later, the
  second call returns the same signals and leaves the world as it is: no request is sent,
  whatever the network would answer. The key is an injective function of the URL as
  given, so two different URLs never share an entry.
\<close>

theorem second_call_served_from_cache:
  fixes w :: "'z server_scheme"
  assumes "serving (cache, w)"
    and "extract_website_content net1 u (cache, w) = ((Signals data, True), cache1, w1)"
    and "t2 - clock w1 < 600"
  shows "fst (extract_website_content net2 u (cache1, w1\<lparr>clock := t2\<rparr>)) = (Signals data, True)
         \<and> snd (snd (extract_website_content net2 u (cache1, w1\<lparr>clock := t2\<rparr>))) = w1\<lparr>clock := t2\<rparr>
         \<and> fetched (snd (snd (extract_website_content net2 u (cache1, w1\<lparr>clock := t2\<rparr>))))
             = fetched w1
         \<and> (u' \<noteq> u \<longrightarrow> args_key u' \<noteq> args_key u)"
proof -
  have s1: "serving (cache1, w1)"
    using serving.request [OF assms(1,2)] .
  obtain ts where c1: "cache1 (args_key u) = Some ((Signals data, True), ts)"
    using extract_cases [OF assms(2)] by auto
  have known: "website_content_cache (w1\<lparr>clock := t2\<rparr>) u = Some data"
    using serving_invariant [OF s1, of u data True ts] c1 by simp
  have "extract_website_content net2 u (cache1, w1\<lparr>clock := t2\<rparr>)
          = ((Signals data, True), cache1, w1\<lparr>clock := t2\<rparr>)
      \<or> extract_website_content net2 u (cache1, w1\<lparr>clock := t2\<rparr>)
          = ((Signals data, True),
             cache1(args_key u \<mapsto> ((Signals data, True), clock (w1\<lparr>clock := t2\<rparr>))),
             w1\<lparr>clock := t2\<rparr>)"
  proof (cases "clock (w1\<lparr>clock := t2\<rparr>) - ts < 600")
    case True
    then show ?thesis
      using extract_hit [of cache1 u "(Signals data, True)" ts "w1\<lparr>clock := t2\<rparr>" net2] c1
      by simp
  next
    case False
    then show ?thesis
      using extract_miss [of cache1 u "w1\<lparr>clock := t2\<rparr>" net2 "(Signals data, True)"
          "w1\<lparr>clock := t2\<rparr>"] body_known [OF known, of net2] c1
      by simp
  qed
  then show ?thesis
    using args_key_inj by auto
qed


theorem second_call_served_from_cache_witness:
  "serving (Map.empty :: extract_result cache,
            \<lparr>clock = 0, website_content_cache = Map.empty, fetched = []\<rparr>)
   \<and> extract_website_content (Inr sample_page, 2) ''http://a.com''
        (Map.empty, \<lparr>clock = 0, website_content_cache = Map.empty, fetched = []\<rparr>)
       = ((Signals sample_page, True),
          [args_key ''http://a.com'' \<mapsto> ((Signals sample_page, True), 2)],
          \<lparr>clock = 2, website_content_cache = [''http://a.com'' \<mapsto> sample_page],
            fetched = [''http://a.com'']\<rparr>)
   \<and> (300::real) - 2 < 600
   \<and> fst (extract_website_content (Inl ''503 Server Error'', 1) ''http://a.com''
          ([args_key ''http://a.com'' \<mapsto> ((Signals sample_page, True), 2)],
           \<lparr>clock = 300, website_content_cache = [''http://a.com'' \<mapsto> sample_page],
             fetched = [''http://a.com'']\<rparr>))
       = (Signals sample_page, True)
   \<and> fetched (snd (snd (extract_website_content (Inl ''503 Server Error'', 1) ''http://a.com''
          ([args_key ''http://a.com'' \<mapsto> ((Signals sample_page, True), 2)],
           \<lparr>clock = 300, website_content_cache = [''http://a.com'' \<mapsto> sample_page],
             fetched = [''http://a.com'']\<rparr>))))
       = [''http://a.com'']
   \<and> args_key ''http://a.com/'' \<noteq> args_key ''http://a.com''
   \<and> args_key ''http://a.com?x=1'' \<noteq> args_key ''http://a.com''"
proof -
  define w0 :: server where "w0 = \<lparr>clock = 0, website_content_cache = Map.empty, fetched = []\<rparr>"
  define w1 :: server where "w1 = \<lparr>clock = 2,
    website_content_cache = [''http://a.com'' \<mapsto> sample_page], fetched = [''http://a.com'']\<rparr>"
  define c1 :: "extract_result cache"
    where "c1 = [args_key ''http://a.com'' \<mapsto> ((Signals sample_page, True), 2)]"
  have a: "serving (Map.empty :: extract_result cache, w0)"
    by (rule serving.boot) (simp add: w0_def)
  have b: "extract_website_content (Inr sample_page, 2) ''http://a.com'' (Map.empty, w0)
             = ((Signals sample_page, True), c1, w1)"
    by (simp add: extract_website_content_def cached_function_def
        extract_website_content_body_def Let_def w0_def w1_def c1_def)
  have c: "300 - clock w1 < 600"
    by (simp add: w1_def)
  have w: "w1\<lparr>clock := 300\<rparr> = \<lparr>clock = 300,
      website_content_cache = [''http://a.com'' \<mapsto> sample_page], fetched = [''http://a.com'']\<rparr>"
    by (simp add: w1_def)
  note inst1 = second_call_served_from_cache [OF a b c, of "(Inl ''503 Server Error'', 1)"
      "''http://a.com/''"]
  note inst2 = second_call_served_from_cache [OF a b c, of "(Inl ''503 Server Error'', 1)"
      "''http://a.com?x=1''"]
  show ?thesis
    using a b inst1 inst2 unfolding w w0_def w1_def c1_def by simp
qed

text \<open>
  C1, as the code has it. A call that runs the pipeline and fails returns the error with
  the flag False; the failure is not stored in \<open>website_content_cache\<close>, but the
  decorator stores it like any result. A call for the same URL less than 600 seconds
  after that returns the stored failure and sends no request; a call at 600 seconds or
  later runs the pipeline again.
\<close>

theorem failure_kept_for_ttl:
  fixes w :: "'z server_scheme"
  assumes miss: "\<And>r ts. cache (args_key u) = Some (r, ts) \<Longrightarrow> \<not> clock w - ts < 600"
    and unknown: "website_content_cache w u = None"
    and fails: "fst net1 = Inl m"
    and call: "extract_website_content net1 u (cache, w) = (r1, cache1, w1)"
  shows "r1 = (ErrorData m u, False)
         \<and> fetched w1 = fetched w @ [u]
         \<and> website_content_cache w1 u = None
         \<and> cache1 (args_key u) = Some (r1, clock w1)
         \<and> (t2 - clock w1 < 600 \<longrightarrow>
              extract_website_content net2 u (cache1, w1\<lparr>clock := t2\<rparr>)
                = (r1, cache1, w1\<lparr>clock := t2\<rparr>))
         \<and> (\<not> t2 - clock w1 < 600 \<longrightarrow>
              fst (extract_website_content net2 u (cache1, w1\<lparr>clock := t2\<rparr>))
                = (case fst net2 of Inl m2 \<Rightarrow> (ErrorData m2 u, False)
                   | Inr d \<Rightarrow> (Signals d, True))
              \<and> fetched (snd (snd (extract_website_content net2 u (cache1, w1\<lparr>clock := t2\<rparr>))))
                  = fetched w1 @ [u])"
proof -
  define wf where "wf = w\<lparr>clock := clock w + snd net1, fetched := fetched w @ [u]\<rparr>"
  have body: "extract_website_content_body net1 u w = ((ErrorData m u, False), wf)"
    using body_unknown [OF unknown, of net1] fails by (simp add: wf_def)
  have first: "extract_website_content net1 u (cache, w)
      = ((ErrorData m u, False), cache(args_key u \<mapsto> ((ErrorData m u, False), clock wf)), wf)"
    using extract_miss [OF miss body] by simp
  have r1: "r1 = (ErrorData m u, False)" and w1: "w1 = wf"
    and c1: "cache1 = cache(args_key u \<mapsto> ((ErrorData m u, False), clock wf))"
    using first call by simp_all
  have stored: "cache1 (args_key u) = Some (r1, clock w1)"
    by (simp add: c1 r1 w1)
  have unknown1: "website_content_cache (w1\<lparr>clock := t2\<rparr>) u = None"
    using unknown by (simp add: w1 wf_def)
  have hit: "extract_website_content net2 u (cache1, w1\<lparr>clock := t2\<rparr>)
                = (r1, cache1, w1\<lparr>clock := t2\<rparr>)" if "t2 - clock w1 < 600"
    using extract_hit [of cache1 u r1 "clock w1" "w1\<lparr>clock := t2\<rparr>" net2] stored that by simp
  have rerun: "extract_website_content net2 u (cache1, w1\<lparr>clock := t2\<rparr>)
      = (fst (extract_website_content_body net2 u (w1\<lparr>clock := t2\<rparr>)),
         cache1(args_key u \<mapsto> (fst (extract_website_content_body net2 u (w1\<lparr>clock := t2\<rparr>)),
            clock (snd (extract_website_content_body net2 u (w1\<lparr>clock := t2\<rparr>))))),
         snd (extract_website_content_body net2 u (w1\<lparr>clock := t2\<rparr>)))"
    if "\<not> t2 - clock w1 < 600"
    using extract_miss [of cache1 u "w1\<lparr>clock := t2\<rparr>" net2
        "fst (extract_website_content_body net2 u (w1\<lparr>clock := t2\<rparr>))"
        "snd (extract_website_content_body net2 u (w1\<lparr>clock := t2\<rparr>))"] stored that
    by simp
  have again: "fst (extract_website_content net2 u (cache1, w1\<lparr>clock := t2\<rparr>))
                = (case fst net2 of Inl m2 \<Rightarrow> (ErrorData m2 u, False)
                   | Inr d \<Rightarrow> (Signals d, True))
              \<and> fetched (snd (snd (extract_website_content net2 u (cache1, w1\<lparr>clock := t2\<rparr>))))
                  = fetched w1 @ [u]" if "\<not> t2 - clock w1 < 600"
    unfolding rerun [OF that] body_unknown [OF unknown1]
    by (simp split: sum.splits)
  show ?thesis
    using r1 stored hit again unknown by (simp add: w1 wf_def)
qed


theorem failure_kept_for_ttl_witness:
  "extract_website_content (Inl ''503 Server Error'', 1) ''http://a.com''
        (Map.empty, \<lparr>clock = 0, website_content_cache = Map.empty, fetched = []\<rparr>)
       = ((ErrorData ''503 Server Error'' ''http://a.com'', False),
          [args_key ''http://a.com''
             \<mapsto> ((ErrorData ''503 Server Error'' ''http://a.com'', False), 1)],
          \<lparr>clock = 1, website_content_cache = Map.empty, fetched = [''http://a.com'']\<rparr>)
   \<and> fst (extract_website_content (Inr sample_page, 1) ''http://a.com''
          ([args_key ''http://a.com''
              \<mapsto> ((ErrorData ''503 Server Error'' ''http://a.com'', False), 1)],
           \<lparr>clock = 700, website_content_cache = Map.empty, fetched = [''http://a.com'']\<rparr>))
       = (Signals sample_page, True)
   \<and> fetched (snd (snd (extract_website_content (Inr sample_page, 1) ''http://a.com''
          ([args_key ''http://a.com''
              \<mapsto> ((ErrorData ''503 Server Error'' ''http://a.com'', False), 1)],
           \<lparr>clock = 700, website_content_cache = Map.empty, fetched = [''http://a.com'']\<rparr>))))
       = [''http://a.com'', ''http://a.com'']"
proof -
  define w0 :: server where "w0 = \<lparr>clock = 0, website_content_cache = Map.empty, fetched = []\<rparr>"
  define w1 :: server where "w1 = \<lparr>clock = 1, website_content_cache = Map.empty,
    fetched = [''http://a.com'']\<rparr>"
  define r1 :: extract_result where "r1 = (ErrorData ''503 Server Error'' ''http://a.com'', False)"
  define c1 :: "extract_result cache" where "c1 = [args_key ''http://a.com'' \<mapsto> (r1, 1)]"
  have call: "extract_website_content (Inl ''503 Server Error'', 1) ''http://a.com'' (Map.empty, w0)
               = (r1, c1, w1)"
    by (simp add: extract_website_content_def cached_function_def
        extract_website_content_body_def Let_def w0_def w1_def c1_def r1_def)
  have w: "w1\<lparr>clock := 700\<rparr> = \<lparr>clock = 700, website_content_cache = Map.empty,
      fetched = [''http://a.com'']\<rparr>"
    by (simp add: w1_def)
  have "fst (extract_website_content (Inr sample_page, 1) ''http://a.com'' (c1, w1\<lparr>clock := 700\<rparr>))
          = (Signals sample_page, True)
        \<and> fetched (snd (snd (extract_website_content (Inr sample_page, 1) ''http://a.com''
             (c1, w1\<lparr>clock := 700\<rparr>)))) = fetched w1 @ [''http://a.com'']"
    using failure_kept_for_ttl [of Map.empty "''http://a.com''" w0 "(Inl ''503 Server Error'', 1)"
        "''503 Server Error''" r1 c1 w1 700 "(Inr sample_page, 1)"] call
    by (simp add: w0_def w1_def)
  then show ?thesis
    using call unfolding w w0_def w1_def c1_def r1_def by simp
qed

text \<open>
  The claim as stated fails: after a failed fetch at time 0, a call at time 100 returns
  the stored failure although the network would now answer, and no second request is sent.
\<close>

theorem failure_served_from_cache_counterexample:
  "extract_website_content (Inl ''503 Server Error'', 1) ''http://a.com''
        (Map.empty, \<lparr>clock = 0, website_content_cache = Map.empty, fetched = []\<rparr>)
       = ((ErrorData ''503 Server Error'' ''http://a.com'', False),
          [args_key ''http://a.com''
             \<mapsto> ((ErrorData ''503 Server Error'' ''http://a.com'', False), 1)],
          \<lparr>clock = 1, website_content_cache = Map.empty, fetched = [''http://a.com'']\<rparr>)
   \<and> extract_website_content (Inr sample_page, 1) ''http://a.com''
          ([args_key ''http://a.com''
              \<mapsto> ((ErrorData ''503 Server Error'' ''http://a.com'', False), 1)],
           \<lparr>clock = 100, website_content_cache = Map.empty, fetched = [''http://a.com'']\<rparr>)
       = ((ErrorData ''503 Server Error'' ''http://a.com'', False),
          [args_key ''http://a.com''
             \<mapsto> ((ErrorData ''503 Server Error'' ''http://a.com'', False), 1)],
          \<lparr>clock = 100, website_content_cache = Map.empty, fetched = [''http://a.com'']\<rparr>)"
  by (simp add: extract_website_content_def cached_function_def
      extract_website_content_body_def Let_def)


section \<open>Properties of the JSON salvage\<close>









section \<open>Properties of the analysis\<close>


lemma default_report_keys:
  "json_get create_default_response ''overall_score'' = Some (JInt 65)"
  "json_get create_default_response ''issues'' =
     Some (JArray
       [JObject
          [(''category'', JString ''Error Processing''),
           (''description'',
              JString ''We encountered an issue analyzing this website. Please try again.''),
           (''impact'', JString ''High''),
           (''solution'', JString ''Refresh and retry the analysis.'')]])"
  by (simp_all add: json_get_def create_default_response_def)













end
